theory Spec2Isabelle
  imports Main "HOL-Library.Word"
begin

unbundle bit_operations_syntax

section \<open>FindUncommonShares: a shallow embedding\<close>

text \<open>
  The program under study is \<^verbatim>\<open>FindUncommonShares.py\<close>. Python integers are
  unbounded and modelled as \<^typ>\<open>int\<close>; Python's \<^verbatim>\<open>&\<close> on integers is the
  two's-complement conjunction \<open>AND\<close> on \<^typ>\<open>int\<close>. A Python \<^verbatim>\<open>str\<close> is modelled
  as a \<^typ>\<open>string\<close>, one list element for each character of the Python string.
\<close>

subsection \<open>Constants\<close>

definition COMMON_SHARES :: "string list" where
  "COMMON_SHARES =
     [''C$'',
      ''ADMIN$'', ''IPC$'',
      ''PRINT$'', ''print$'',
      ''fax$'', ''FAX$'',
      ''SYSVOL'', ''NETLOGON'']"

subsection \<open>Decoding the share type: \<^verbatim>\<open>STYPE_MASK\<close>\<close>

text \<open>The dictionary \<^verbatim>\<open>known_flags\<close>, one constant for each key.\<close>

definition STYPE_DISKTREE :: int where "STYPE_DISKTREE = 0x0"
definition STYPE_PRINTQ :: int where "STYPE_PRINTQ = 0x1"
definition STYPE_DEVICE :: int where "STYPE_DEVICE = 0x2"
definition STYPE_IPC :: int where "STYPE_IPC = 0x3"
definition STYPE_SPECIAL :: int where "STYPE_SPECIAL = 0x80000000"
definition STYPE_TEMPORARY :: int where "STYPE_TEMPORARY = 0x40000000"

text \<open>
  The body of \<^verbatim>\<open>STYPE_MASK\<close>: an \<^verbatim>\<open>if\<close>/\<^verbatim>\<open>elif\<close> chain on the low two bits
  followed by two independent tests, each appending to the list \<^verbatim>\<open>flags\<close>.
\<close>

definition STYPE_MASK :: "int \<Rightarrow> string list" where
  "STYPE_MASK stype_value =
     (let flags0 = [];
          flags1 =
            (if stype_value AND 3 = STYPE_DISKTREE then flags0 @ [''STYPE_DISKTREE'']
             else if stype_value AND 3 = STYPE_PRINTQ then flags0 @ [''STYPE_PRINTQ'']
             else if stype_value AND 3 = STYPE_DEVICE then flags0 @ [''STYPE_DEVICE'']
             else if stype_value AND 3 = STYPE_IPC then flags0 @ [''STYPE_IPC'']
             else flags0);
          flags2 =
            (if stype_value AND STYPE_SPECIAL = 0 then flags1 @ [''STYPE_SPECIAL'']
             else flags1);
          flags3 =
            (if stype_value AND STYPE_TEMPORARY = 0 then flags2 @ [''STYPE_TEMPORARY'']
             else flags2)
      in flags3)"

subsection \<open>Python built-ins used by the program\<close>

text \<open>\<^verbatim>\<open>s[:-1]\<close>: the slice from the start up to, and excluding, index \<open>len(s) - 1\<close>,
  the bound being clipped at 0.\<close>

definition slice_to_minus_1 :: "'a list \<Rightarrow> 'a list" where
  "slice_to_minus_1 s = take (length s - 1) s"

text \<open>\<^verbatim>\<open>s.endswith(suffix)\<close>.\<close>

definition endswith :: "string \<Rightarrow> string \<Rightarrow> bool" where
  "endswith s suffix =
     (length suffix \<le> length s \<and> drop (length s - length suffix) s = suffix)"

text \<open>\<^verbatim>\<open>sep.join(xs)\<close>.\<close>

fun join :: "string \<Rightarrow> string list \<Rightarrow> string" where
  "join sep [] = []"
| "join sep [x] = x"
| "join sep (x # y # ys) = x @ sep @ join sep (y # ys)"

text \<open>
  A Python \<^verbatim>\<open>dict\<close> whose iteration order matters is an association list with
  distinct keys, in insertion order. \<^verbatim>\<open>d[k] = v\<close> keeps the position of an existing
  key and puts a new key last.
\<close>

definition dict_keys :: "('k \<times> 'v) list \<Rightarrow> 'k list" where
  "dict_keys d = map fst d"

fun dict_set :: "('k \<times> 'v) list \<Rightarrow> 'k \<Rightarrow> 'v \<Rightarrow> ('k \<times> 'v) list" where
  "dict_set [] k v = [(k, v)]"
| "dict_set ((k', v') # d) k v =
     (if k' = k then (k, v) # d else (k', v') # dict_set d k v)"

text \<open>The outcome of a call into a library or the network: it raises an exception
  (with its message) or returns a value.\<close>

datatype 'a outcome = Raises string | Returns 'a

subsection \<open>Data model\<close>

text \<open>One element of the answer of \<^verbatim>\<open>smbClient.listShares()\<close> (a \<^verbatim>\<open>SHARE_INFO_1\<close>).\<close>

record share_info_1 =
  shi1_netname :: string
  shi1_remark :: string
  shi1_type :: int

text \<open>The nested dictionary that \<^verbatim>\<open>worker\<close> appends for each share; the key
  \<^verbatim>\<open>"type"\<close> of the source is the field \<open>share_type\<close>.\<close>

record computer_part =
  fqdn :: string
  ip :: string

record type_part =
  stype_value :: int
  stype_flags :: "string list"

record share_part =
  name :: string
  comment :: string
  hidden :: bool
  uncpath :: string
  share_type :: type_part

record share_record =
  computer :: computer_part
  share :: share_part

type_synonym results = "(string \<times> share_record list) list"

text \<open>The attributes of the \<^verbatim>\<open>argparse\<close> namespace; an attribute that can be
  \<^verbatim>\<open>None\<close> is an option.\<close>

record options =
  use_ldaps :: bool
  quiet :: bool
  debug :: bool
  colors :: bool
  ignore_hidden_shares :: bool
  threads :: int
  export_xlsx :: "string option"
  export_json :: "string option"
  export_sqlite :: "string option"
  dc_ip :: "string option"
  auth_domain :: string
  auth_username :: string
  no_pass :: bool
  auth_password :: "string option"
  auth_hashes :: "string option"
  auth_key :: "string option"
  use_kerberos :: bool

subsection \<open>The per-host probe: \<^verbatim>\<open>worker\<close>\<close>

text \<open>
  The dictionary appended to \<^verbatim>\<open>results[target_name]\<close> for one element of the share
  listing. \<^verbatim>\<open>sharename\<close> and \<^verbatim>\<open>sharecomment\<close> are the listing's strings sliced
  with \<^verbatim>\<open>[:-1]\<close>; the separator of the UNC path is a backslash.
\<close>

definition share_entry :: "string \<Rightarrow> string \<Rightarrow> share_info_1 \<Rightarrow> share_record" where
  "share_entry target_name target_ip sh =
     (let sharename = slice_to_minus_1 (shi1_netname sh);
          sharecomment = slice_to_minus_1 (shi1_remark sh);
          sharetype = shi1_type sh
      in \<lparr>computer = \<lparr>fqdn = target_name, ip = target_ip\<rparr>,
          share = \<lparr>name = sharename,
                   comment = sharecomment,
                   hidden = (if endswith sharename ''$'' then True else False),
                   uncpath = join [CHR 0x5C] [[], [], target_ip, sharename, []],
                   share_type = \<lparr>stype_value = sharetype,
                                 stype_flags = STYPE_MASK sharetype\<rparr>\<rparr>\<rparr>)"

text \<open>
  The block between \<^verbatim>\<open>lock.acquire()\<close> and \<^verbatim>\<open>lock.release()\<close>: the key is
  created with an empty list when missing, then the entry is appended to the key's list.
  The lookup cannot fail, the key having just been ensured.
\<close>

definition record_share :: "results \<Rightarrow> string \<Rightarrow> string \<Rightarrow> share_info_1 \<Rightarrow> results" where
  "record_share res target_name target_ip sh =
     (let res1 = (if target_name \<notin> set (dict_keys res)
                  then dict_set res target_name [] else res)
      in case map_of res1 target_name of
           None \<Rightarrow> res1
         | Some shares \<Rightarrow>
             dict_set res1 target_name (shares @ [share_entry target_name target_ip sh]))"

text \<open>The console lines. \<open>esc c\<close> is the escape sequence \<^verbatim>\<open>\x1b[<c>m\<close> and \<open>quoted\<close>
  puts its argument between two apostrophes.\<close>

definition esc :: "string \<Rightarrow> string" where
  "esc c = CHR 0x1B # ''['' @ c @ ''m''"

definition quoted :: "string \<Rightarrow> string" where
  "quoted s = CHR 0x27 # s @ [CHR 0x27]"

definition colored :: "string \<Rightarrow> string \<Rightarrow> string" where
  "colored c s = quoted (esc c @ s @ esc ''0'')"

definition line_with_comment :: "string \<Rightarrow> string \<Rightarrow> string \<Rightarrow> string \<Rightarrow> string" where
  "line_with_comment prefix n a c = prefix @ n @ '' on '' @ a @ '' (comment: '' @ c @ '')''"

definition line_without_comment :: "string \<Rightarrow> string \<Rightarrow> string \<Rightarrow> string" where
  "line_without_comment prefix n a = prefix @ n @ '' on '' @ a"

text \<open>
  What the body of the loop prints after the lock is released: at most one line, chosen by
  the nested conditionals of the source (the tests are kept in the source's order).
\<close>

definition discovery_lines :: "options \<Rightarrow> string \<Rightarrow> string \<Rightarrow> string \<Rightarrow> string list" where
  "discovery_lines opts sharename sharecomment address =
     (if sharename \<notin> set COMMON_SHARES then
        (if \<not> quiet opts then
           (if length sharecomment \<noteq> 0 then
              (if colors opts then
                 (if endswith sharename ''$'' then
                    (if \<not> ignore_hidden_shares opts then
                       [line_with_comment ''[>] Found '' (colored ''94'' sharename)
                          (colored ''96'' address) (colored ''95'' sharecomment)]
                     else [])
                  else
                    [line_with_comment ''[>] Found '' (colored ''93'' sharename)
                       (colored ''96'' address) (colored ''95'' sharecomment)])
               else
                 [line_with_comment ''[>] Found '' (quoted sharename)
                    (quoted address) (quoted sharecomment)])
            else
              (if colors opts then
                 (if endswith sharename ''$'' then
                    (if \<not> ignore_hidden_shares opts then
                       [line_without_comment ''[>] Found '' (colored ''94'' sharename)
                          (colored ''96'' address)]
                     else [])
                  else
                    [line_without_comment ''[>] Found '' (colored ''93'' sharename)
                       (colored ''96'' address)])
               else
                 (if endswith sharename ''$'' then
                    (if \<not> ignore_hidden_shares opts then
                       [line_without_comment ''[>] Found '' (quoted sharename) (quoted address)]
                     else [])
                  else
                    [line_without_comment ''[>] Found '' (quoted sharename) (quoted address)])))
         else [])
      else if debug opts \<and> \<not> quiet opts then
        (if length sharecomment \<noteq> 0 then
           (if colors opts then
              (if endswith sharename ''$'' \<and> \<not> ignore_hidden_shares opts then
                 [line_with_comment ''[>] Skipping common share '' (colored ''94'' sharename)
                    (colored ''96'' address) (colored ''95'' sharecomment)]
               else
                 [line_with_comment ''[>] Skipping common share '' (colored ''93'' sharename)
                    (colored ''96'' address) (colored ''95'' sharecomment)])
            else
              [line_with_comment ''[>] Skipping common share '' (quoted sharename)
                 (quoted address) (quoted sharecomment)])
         else
           (if colors opts then
              (if endswith sharename ''$'' \<and> \<not> ignore_hidden_shares opts then
                 [line_without_comment ''[>] Skipping common share '' (colored ''94'' sharename)
                    (colored ''96'' address)]
               else
                 [line_without_comment ''[>] Skipping common share '' (colored ''93'' sharename)
                    (colored ''96'' address)])
            else
              (if endswith sharename ''$'' then
                 (if \<not> ignore_hidden_shares opts then
                    [line_without_comment ''[>] Skipping common share '' (quoted sharename)
                       (quoted address)]
                  else [])
               else
                 [line_without_comment ''[>] Skipping common share '' (quoted sharename)
                    (quoted address)])))
      else [])"


text \<open>The state shared by the tasks and the script: the dictionary \<^verbatim>\<open>results\<close> and
  what has been printed on the standard output, one element for each \<^verbatim>\<open>print\<close>.\<close>

record shared =
  resultset :: results
  console :: "string list"

text \<open>
  \<^verbatim>\<open>print(line)\<close>. Printing can raise (an encoding that cannot take a character of
  the line, a closed pipe): \<open>perr\<close> gives, for a line, the exception that printing it
  raises, if any. A line that raises is not printed.
\<close>

definition print_line ::
  "(string \<Rightarrow> string option) \<Rightarrow> string \<Rightarrow> shared \<Rightarrow> string option \<times> shared" where
  "print_line perr line st =
     (case perr line of
        Some e \<Rightarrow> (Some e, st)
      | None \<Rightarrow> (None, st\<lparr>console := console st @ [line]\<rparr>))"

text \<open>Several \<^verbatim>\<open>print\<close> statements in a row: the first one that raises ends them.\<close>

fun print_lines ::
  "(string \<Rightarrow> string option) \<Rightarrow> string list \<Rightarrow> shared \<Rightarrow> string option \<times> shared" where
  "print_lines perr [] st = (None, st)"
| "print_lines perr (line # rest) st =
     (case print_line perr line st of
        (Some e, st') \<Rightarrow> (Some e, st')
      | (None, st') \<Rightarrow> print_lines perr rest st')"

text \<open>
  One iteration of \<^verbatim>\<open>for share in resp\<close>: the entry is appended under the lock, then
  the line of the share, if it has one, is printed. The first component is the exception
  that leaves the iteration, if any.
\<close>

definition share_step ::
  "(string \<Rightarrow> string option) \<Rightarrow> options \<Rightarrow> string \<Rightarrow> string \<Rightarrow> string \<Rightarrow> share_info_1
     \<Rightarrow> shared \<Rightarrow> string option \<times> shared" where
  "share_step perr opts target_name target_ip address sh st =
     (let sharename = slice_to_minus_1 (shi1_netname sh);
          sharecomment = slice_to_minus_1 (shi1_remark sh)
      in print_lines perr (discovery_lines opts sharename sharecomment address)
           (st\<lparr>resultset := record_share (resultset st) target_name target_ip sh\<rparr>))"

text \<open>The loop: an exception in an iteration leaves the loop, and the shares after it
  are not reached.\<close>

fun share_loop ::
  "(string \<Rightarrow> string option) \<Rightarrow> options \<Rightarrow> string \<Rightarrow> string \<Rightarrow> string
     \<Rightarrow> share_info_1 list \<Rightarrow> shared \<Rightarrow> string option \<times> shared" where
  "share_loop perr opts target_name target_ip address [] st = (None, st)"
| "share_loop perr opts target_name target_ip address (sh # resp) st =
     (case share_step perr opts target_name target_ip address sh st of
        (Some e, st') \<Rightarrow> (Some e, st')
      | (None, st') \<Rightarrow> share_loop perr opts target_name target_ip address resp st')"

text \<open>
  What the network does for one host: the answer of the name lookup, the construction of
  the \<^verbatim>\<open>SMBConnection\<close> with the negotiation of the dialect, the login, and the share
  listing.
\<close>

record host_env =
  dns_answer :: "string list outcome"
  smb_connect :: "unit outcome"
  smb_login :: "unit outcome"
  list_shares :: "share_info_1 list outcome"

text \<open>
  \<^verbatim>\<open>init_smb_session\<close>. Its \<^verbatim>\<open>debug\<close> parameter keeps its default \<^verbatim>\<open>False\<close>, so it
  prints nothing. With Kerberos the call reads \<^verbatim>\<open>options.aesKey\<close>, an attribute that
  the namespace built by \<^verbatim>\<open>parse_args\<close> does not have (the key is stored as
  \<^verbatim>\<open>auth_key\<close>), which raises.
\<close>

definition init_smb_session :: "options \<Rightarrow> host_env \<Rightarrow> unit outcome" where
  "init_smb_session opts env =
     (case smb_connect env of
        Raises e \<Rightarrow> Raises e
      | Returns u \<Rightarrow>
          if use_kerberos opts then Raises ''AttributeError: aesKey''
          else smb_login env)"

text \<open>The handler \<^verbatim>\<open>except Exception as e\<close>: it prints the exception in debug mode,
  and an exception of that \<^verbatim>\<open>print\<close> leaves the function.\<close>

definition except_handler ::
  "(string \<Rightarrow> string option) \<Rightarrow> options \<Rightarrow> string \<Rightarrow> shared \<Rightarrow> string option \<times> shared" where
  "except_handler perr opts e st =
     (if debug opts then print_line perr e st else (None, st))"

text \<open>
  \<^verbatim>\<open>worker\<close>. The name lookup is outside the \<^verbatim>\<open>try\<close>: an exception there leaves the
  function. Everything after it is inside \<^verbatim>\<open>try ... except Exception\<close>: the opening
  of the session, the share listing and the loop over the shares with its prints. The
  first component is the exception that leaves the function, if any.
\<close>

definition worker ::
  "(string \<Rightarrow> string option) \<Rightarrow> options \<Rightarrow> string \<Rightarrow> string \<Rightarrow> host_env \<Rightarrow> shared
     \<Rightarrow> string option \<times> shared" where
  "worker perr opts target_name address env st =
     (case dns_answer env of
        Raises e \<Rightarrow> (Some e, st)
      | Returns answer \<Rightarrow>
          (case answer of
             [] \<Rightarrow> (None, st)
           | target_ip # other \<Rightarrow>
               (case init_smb_session opts env of
                  Raises e \<Rightarrow> except_handler perr opts e st
                | Returns smbClient \<Rightarrow>
                    (case list_shares env of
                       Raises e \<Rightarrow> except_handler perr opts e st
                     | Returns resp \<Rightarrow>
                         (case share_loop perr opts target_name target_ip address resp st of
                            (Some e, st') \<Rightarrow> except_handler perr opts e st'
                          | (None, st') \<Rightarrow> (None, st'))))))"

subsection \<open>The directory enumerator: \<^verbatim>\<open>get_domain_computers\<close>\<close>

text \<open>
  An element of \<^verbatim>\<open>ldap_session.response\<close> and the value stored for a computer. The
  result of a search carries \<^verbatim>\<open>result["controls"]\<close> when the server sent controls: a
  dictionary from the OID of a control to the cookie found under
  \<^verbatim>\<open>["value"]["cookie"]\<close>.
\<close>

record computer_attrs =
  dNSHostName :: string
  sAMAccountName :: string

record ldap_entry =
  entry_type :: string
  dn :: string
  attributes :: computer_attrs

record search_reply =
  result_controls :: "(string \<times> string) list option"
  response :: "ldap_entry list"

type_synonym computers = "(string \<times> computer_attrs) list"

definition LDAP_PAGED_RESULT_OID_STRING :: string where
  "LDAP_PAGED_RESULT_OID_STRING = ''1.2.840.113556.1.4.319''"

text \<open>The conditionals after the search: the new values of \<^verbatim>\<open>paged_response\<close> and
  \<^verbatim>\<open>paged_cookie\<close>.\<close>

definition next_page :: "search_reply \<Rightarrow> string option \<Rightarrow> bool \<times> string option" where
  "next_page reply paged_cookie =
     (case result_controls reply of
        Some controls \<Rightarrow>
          (case map_of controls LDAP_PAGED_RESULT_OID_STRING of
             Some next_cookie \<Rightarrow>
               if length next_cookie = 0 then (False, paged_cookie)
               else (True, Some next_cookie)
           | None \<Rightarrow> (False, paged_cookie))
      | None \<Rightarrow> (False, paged_cookie))"

text \<open>\<^verbatim>\<open>for entry in ldap_session.response\<close>.\<close>

fun collect_entries :: "ldap_entry list \<Rightarrow> computers \<Rightarrow> computers" where
  "collect_entries [] res = res"
| "collect_entries (entry # rest) res =
     (if entry_type entry \<noteq> ''searchResEntry'' then collect_entries rest res
      else collect_entries rest
             (dict_set res (dn entry)
                \<lparr>dNSHostName = dNSHostName (attributes entry),
                 sAMAccountName = sAMAccountName (attributes entry)\<rparr>))"

text \<open>
  The \<^verbatim>\<open>while paged_response == True\<close> loop. The server is a transition function on a
  state of its own: a search with a cookie yields a reply and the next state. Nothing
  bounds the number of iterations, so the loop is a partial function and \<open>None\<close> stands
  for a run that never leaves it.
\<close>

partial_function (option) paged_loop ::
  "('s \<Rightarrow> string option \<Rightarrow> search_reply \<times> 's) \<Rightarrow> 's \<Rightarrow> string option \<Rightarrow> computers
     \<Rightarrow> computers option" where
  "paged_loop search session paged_cookie res =
     (if fst (next_page (fst (search session paged_cookie)) paged_cookie)
      then paged_loop search (snd (search session paged_cookie))
             (snd (next_page (fst (search session paged_cookie)) paged_cookie))
             (collect_entries (response (fst (search session paged_cookie))) res)
      else Some (collect_entries (response (fst (search session paged_cookie))) res))"

declare paged_loop.simps [code]

definition get_domain_computers ::
  "('s \<Rightarrow> string option \<Rightarrow> search_reply \<times> 's) \<Rightarrow> 's \<Rightarrow> computers option" where
  "get_domain_computers search session = paged_loop search session None []"

text \<open>
  A simulated server that holds a sequence of pages. It answers a search with the next
  page when the request carries the cookie it handed out with the previous page (no
  cookie for the first request), and with an empty reply without controls otherwise.
\<close>

record sim_server =
  expected_cookie :: "string option"
  pending :: "search_reply list"

definition handed_cookie :: "search_reply \<Rightarrow> string option" where
  "handed_cookie p =
     (case result_controls p of
        None \<Rightarrow> None
      | Some controls \<Rightarrow> map_of controls LDAP_PAGED_RESULT_OID_STRING)"

definition sim_search :: "sim_server \<Rightarrow> string option \<Rightarrow> search_reply \<times> sim_server" where
  "sim_search srv cookie =
     (case pending srv of
        [] \<Rightarrow> (\<lparr>result_controls = None, response = []\<rparr>, srv)
      | p # ps \<Rightarrow>
          if cookie = expected_cookie srv
          then (p, \<lparr>expected_cookie = handed_cookie p, pending = ps\<rparr>)
          else (\<lparr>result_controls = None, response = []\<rparr>, srv))"

definition sim_start :: "search_reply list \<Rightarrow> sim_server" where
  "sim_start pages = \<lparr>expected_cookie = None, pending = pages\<rparr>"

text \<open>
  A sequence of pages as the server sends it: every page but the last hands out a
  non-empty cookie, and the last one hands out an empty cookie or has no paging control.
\<close>

definition has_more :: "search_reply \<Rightarrow> bool" where
  "has_more p = (case handed_cookie p of None \<Rightarrow> False | Some c \<Rightarrow> c \<noteq> [])"

fun paged_sequence :: "search_reply list \<Rightarrow> bool" where
  "paged_sequence [] = False"
| "paged_sequence [p] = (\<not> has_more p)"
| "paged_sequence (p # q # ps) = (has_more p \<and> paged_sequence (q # ps))"

text \<open>The computer entries of a sequence of pages, in the order of arrival, as pairs of
  a distinguished name and the attributes.\<close>

definition computer_entries :: "search_reply list \<Rightarrow> (string \<times> computer_attrs) list" where
  "computer_entries pages =
     map (\<lambda>e. (dn e, attributes e))
       (filter (\<lambda>e. entry_type e = ''searchResEntry'') (concat (map response pages)))"

subsection \<open>The command line: \<^verbatim>\<open>parse_args\<close>\<close>

text \<open>
  An occurrence of a declared option on the command line, with its value where the option
  takes one (\<^verbatim>\<open>type=int\<close> for the number of threads, a string otherwise).
\<close>

datatype cli_arg =
    ArgUseLdaps
  | ArgQuiet
  | ArgDebug
  | ArgNoColors
  | ArgIgnoreHiddenShares
  | ArgThreads int
  | ArgExportXlsx string
  | ArgExportJson string
  | ArgExportSqlite string
  | ArgDcIp string
  | ArgDomain string
  | ArgUser string
  | ArgNoPass
  | ArgPassword string
  | ArgHashes string
  | ArgAesKey string
  | ArgKerberos

text \<open>The namespace before any option is seen: the \<^verbatim>\<open>default\<close> of each
  \<^verbatim>\<open>add_argument\<close> (\<^verbatim>\<open>None\<close> where none is given and the action stores a value,
  \<^verbatim>\<open>False\<close> for \<^verbatim>\<open>store_true\<close>).\<close>

definition default_namespace :: options where
  "default_namespace =
     \<lparr>use_ldaps = False,
      quiet = False,
      debug = False,
      colors = True,
      ignore_hidden_shares = False,
      threads = 20,
      export_xlsx = None,
      export_json = None,
      export_sqlite = None,
      dc_ip = None,
      auth_domain = [],
      auth_username = [],
      no_pass = False,
      auth_password = Some [],
      auth_hashes = None,
      auth_key = None,
      use_kerberos = False\<rparr>"

text \<open>The action of each option on the namespace (\<^verbatim>\<open>dest\<close> and \<^verbatim>\<open>action\<close> of its
  \<^verbatim>\<open>add_argument\<close>).\<close>

fun take_action :: "options \<Rightarrow> cli_arg \<Rightarrow> options" where
  "take_action ns ArgUseLdaps = ns\<lparr>use_ldaps := True\<rparr>"
| "take_action ns ArgQuiet = ns\<lparr>quiet := True\<rparr>"
| "take_action ns ArgDebug = ns\<lparr>debug := True\<rparr>"
| "take_action ns ArgNoColors = ns\<lparr>colors := False\<rparr>"
| "take_action ns ArgIgnoreHiddenShares = ns\<lparr>ignore_hidden_shares := True\<rparr>"
| "take_action ns (ArgThreads n) = ns\<lparr>threads := n\<rparr>"
| "take_action ns (ArgExportXlsx v) = ns\<lparr>export_xlsx := Some v\<rparr>"
| "take_action ns (ArgExportJson v) = ns\<lparr>export_json := Some v\<rparr>"
| "take_action ns (ArgExportSqlite v) = ns\<lparr>export_sqlite := Some v\<rparr>"
| "take_action ns (ArgDcIp v) = ns\<lparr>dc_ip := Some v\<rparr>"
| "take_action ns (ArgDomain v) = ns\<lparr>auth_domain := v\<rparr>"
| "take_action ns (ArgUser v) = ns\<lparr>auth_username := v\<rparr>"
| "take_action ns ArgNoPass = ns\<lparr>no_pass := True\<rparr>"
| "take_action ns (ArgPassword v) = ns\<lparr>auth_password := Some v\<rparr>"
| "take_action ns (ArgHashes v) = ns\<lparr>auth_hashes := Some v\<rparr>"
| "take_action ns (ArgAesKey v) = ns\<lparr>auth_key := Some v\<rparr>"
| "take_action ns ArgKerberos = ns\<lparr>use_kerberos := True\<rparr>"

text \<open>
  What \<^verbatim>\<open>parse_args\<close> takes from outside: the scanner of \<^verbatim>\<open>argparse\<close>, which turns
  the words after the program name into occurrences of options or leaves the program
  with a status of its own (0 after \<^verbatim>\<open>-h\<close>, 2 for a command line it rejects); the text
  of \<^verbatim>\<open>print_help\<close>; and what the user would type at the prompt of \<^verbatim>\<open>getpass\<close>.
\<close>

record cli_env =
  scan :: "string list \<Rightarrow> int + cli_arg list"
  help_text :: string
  typed_password :: string

definition banner :: string where
  "banner = ''FindUncommonShares v2.3 - by @podalirius_''"

text \<open>
  \<^verbatim>\<open>parse_args\<close> on \<^verbatim>\<open>sys.argv\<close>. The result is what was printed, and either the
  status of \<^verbatim>\<open>sys.exit\<close> or the options together with a flag telling whether the
  password prompt was shown.
\<close>

definition parse_args ::
  "cli_env \<Rightarrow> string list \<Rightarrow> string list \<times> (int + options \<times> bool)" where
  "parse_args env argv =
     (if length argv = 1 then ([banner, help_text env], Inl 1)
      else
        (case scan env (tl argv) of
           Inl code \<Rightarrow> ([banner], Inl code)
         | Inr occurrences \<Rightarrow>
             (let opts = foldl take_action default_namespace occurrences
              in if auth_password opts = None \<and> no_pass opts = False
                 then ([banner], Inr (opts\<lparr>auth_password := Some (typed_password env)\<rparr>, True))
                 else ([banner], Inr (opts, False)))))"

subsection \<open>The exporters\<close>

text \<open>
  A worksheet is the list of the \<^verbatim>\<open>write_row(row, col, data)\<close> calls made on it and
  the range \<^verbatim>\<open>(first_row, first_col, last_row, last_col)\<close> of its autofilter, both
  bounds included. Column widths and cell formats are left out.
\<close>

datatype cell = Str string | Bool bool

record worksheet =
  written :: "(nat \<times> nat \<times> cell list) list"
  autofilter :: "(nat \<times> nat \<times> nat \<times> nat) option"

definition write_row :: "worksheet \<Rightarrow> nat \<Rightarrow> nat \<Rightarrow> cell list \<Rightarrow> worksheet" where
  "write_row ws row col data = ws\<lparr>written := written ws @ [(row, col, data)]\<rparr>"

definition header_fields :: "string list" where
  "header_fields =
     [''Computer FQDN'', ''Computer IP'', ''Share name'', ''Share comment'', ''Is hidden'']"

definition xlsx_data :: "share_record \<Rightarrow> cell list" where
  "xlsx_data sh =
     [Str (fqdn (computer sh)), Str (ip (computer sh)), Str (name (share sh)),
      Str (comment (share sh)), Bool (hidden (share sh))]"

text \<open>\<^verbatim>\<open>for share in computer\<close> and \<^verbatim>\<open>for computername in results.keys()\<close>, on the
  worksheet and \<^verbatim>\<open>row_id\<close>.\<close>

fun xlsx_share_loop :: "share_record list \<Rightarrow> worksheet \<times> nat \<Rightarrow> worksheet \<times> nat" where
  "xlsx_share_loop [] (ws, row_id) = (ws, row_id)"
| "xlsx_share_loop (sh # rest) (ws, row_id) =
     xlsx_share_loop rest (write_row ws row_id 0 (xlsx_data sh), row_id + 1)"

fun xlsx_computer_loop :: "results \<Rightarrow> worksheet \<times> nat \<Rightarrow> worksheet \<times> nat" where
  "xlsx_computer_loop [] (ws, row_id) = (ws, row_id)"
| "xlsx_computer_loop ((computername, shares) # rest) (ws, row_id) =
     xlsx_computer_loop rest (xlsx_share_loop shares (ws, row_id))"

definition write_xlsx :: "results \<Rightarrow> worksheet" where
  "write_xlsx res =
     (let ws0 = write_row \<lparr>written = [], autofilter = None\<rparr> 0 0 (map Str header_fields);
          (ws1, row_id) = xlsx_computer_loop res (ws0, 1)
      in ws1\<lparr>autofilter := Some (0, 0, row_id, length header_fields - 1)\<rparr>)"

text \<open>A row of the table \<^verbatim>\<open>shares(fqdn, ip, shi1_netname, shi1_remark, shi1_type)\<close>;
  the rows are appended to those the file already holds.\<close>

type_synonym sql_row = "string \<times> string \<times> string \<times> string \<times> int"

definition sql_values :: "share_record \<Rightarrow> sql_row" where
  "sql_values sh =
     (fqdn (computer sh), ip (computer sh), name (share sh), comment (share sh),
      stype_value (share_type (share sh)))"

fun sqlite_share_loop :: "share_record list \<Rightarrow> sql_row list \<Rightarrow> sql_row list" where
  "sqlite_share_loop [] table = table"
| "sqlite_share_loop (sh # rest) table = sqlite_share_loop rest (table @ [sql_values sh])"

fun sqlite_computer_loop :: "results \<Rightarrow> sql_row list \<Rightarrow> sql_row list" where
  "sqlite_computer_loop [] table = table"
| "sqlite_computer_loop ((computername, shares) # rest) table =
     sqlite_computer_loop rest (sqlite_share_loop shares table)"

definition write_sqlite :: "sql_row list \<Rightarrow> results \<Rightarrow> sql_row list" where
  "write_sqlite table res = sqlite_computer_loop res table"

text \<open>The files written by a run. The JSON file holds the serialisation of the whole
  dictionary \<^verbatim>\<open>results\<close>, which stands for it here.\<close>

record files =
  json_file :: "results option"
  xlsx_file :: "worksheet option"
  sqlite_file :: "sql_row list option"


subsection \<open>The main program\<close>

text \<open>
  What a run takes from outside: the outcome of the directory bind, the directory server
  behind the paged search, the network of each host (by host name), the exception, if
  any, that printing a line raises, the error, if any, that creating and writing the file
  at a path raises, and the rows already in the SQLite file at a path.
\<close>

record 's run_env =
  ldap_bind :: "unit outcome"
  ldap_search :: "'s \<Rightarrow> string option \<Rightarrow> search_reply \<times> 's"
  ldap_session :: 's
  hosts :: "string \<Rightarrow> host_env"
  print_error :: "string \<Rightarrow> string option"
  io_error :: "string \<Rightarrow> string option"
  sqlite_table :: "string \<Rightarrow> sql_row list"

text \<open>How the process ends: \<^verbatim>\<open>sys.exit\<close> or the end of the script, or an exception
  that nothing catches (the interpreter prints the traceback and the status is 1).\<close>

datatype ending = Exited int | Uncaught string

fun exit_status :: "ending \<Rightarrow> int" where
  "exit_status (Exited n) = n"
| "exit_status (Uncaught e) = 1"

record run =
  ending :: ending
  tasks :: shared
  exported :: files

text \<open>\<^verbatim>\<open>"%d" % n\<close> for a count.\<close>

definition digit :: "nat \<Rightarrow> char" where
  "digit d = char_of (48 + d)"

function str_nat :: "nat \<Rightarrow> string" where
  "str_nat n = (if n < 10 then [digit n] else str_nat (n div 10) @ [digit (n mod 10)])"
  by pat_completeness auto
termination
  by (relation "measure id") auto

text \<open>The messages of the script. The second one ends with a line feed of its own.\<close>

definition extracting_message :: string where
  "extracting_message = ''[>] Extracting all computers ...''"

definition found_message :: "nat \<Rightarrow> string" where
  "found_message n = ''[+] Found '' @ str_nat n @ '' computers in the domain. '' @ [CHR 0x0A]"

definition enumerating_message :: string where
  "enumerating_message = ''[>] Enumerating shares ...''"

definition done_message :: string where
  "done_message = ''done.''"

text \<open>
  \<^verbatim>\<open>for ck in computers.keys(): tp.submit(worker, ...)\<close>. A task's exception is kept
  in its future, which the program never reads, so only the task's effect on the shared
  state remains. The tasks are taken in the order of submission, each run to its end: the
  schedule of a pool of one thread.
\<close>

fun submit_all ::
  "(string \<Rightarrow> string option) \<Rightarrow> options \<Rightarrow> (string \<Rightarrow> host_env) \<Rightarrow> computers \<Rightarrow> shared
     \<Rightarrow> shared" where
  "submit_all perr opts net [] st = st"
| "submit_all perr opts net ((ck, computer') # rest) st =
     submit_all perr opts net rest
       (snd (worker perr opts (dNSHostName computer') (dNSHostName computer')
               (net (dNSHostName computer')) st))"

text \<open>
  The three export blocks, in the order of the script. Each is skipped when its path is
  \<^verbatim>\<open>None\<close>. A block announces the export, creates and writes the file, and prints
  \<^verbatim>\<open>done.\<close>; an exception of one of these ends the script. The first component is
  that exception, if any.
\<close>

definition export_json_block ::
  "options \<Rightarrow> 's run_env \<Rightarrow> shared \<Rightarrow> files \<Rightarrow> string option \<times> shared \<times> files" where
  "export_json_block opts env st fs =
     (case export_json opts of
        None \<Rightarrow> (None, st, fs)
      | Some path \<Rightarrow>
          (case print_line (print_error env) (''[>] Exporting results to '' @ path @ '' ... '')
                  st of
             (Some e, st1) \<Rightarrow> (Some e, st1, fs)
           | (None, st1) \<Rightarrow>
               (case io_error env path of
                  Some e \<Rightarrow> (Some e, st1, fs)
                | None \<Rightarrow>
                    (case print_line (print_error env) done_message st1 of
                       (err, st2) \<Rightarrow> (err, st2, fs\<lparr>json_file := Some (resultset st)\<rparr>)))))"

definition export_xlsx_block ::
  "options \<Rightarrow> 's run_env \<Rightarrow> shared \<Rightarrow> files \<Rightarrow> string option \<times> shared \<times> files" where
  "export_xlsx_block opts env st fs =
     (case export_xlsx opts of
        None \<Rightarrow> (None, st, fs)
      | Some path \<Rightarrow>
          (case print_line (print_error env) (''[>] Exporting results to '' @ path @ '' ... '')
                  st of
             (Some e, st1) \<Rightarrow> (Some e, st1, fs)
           | (None, st1) \<Rightarrow>
               (case io_error env path of
                  Some e \<Rightarrow> (Some e, st1, fs)
                | None \<Rightarrow>
                    (case print_line (print_error env) done_message st1 of
                       (err, st2) \<Rightarrow>
                         (err, st2, fs\<lparr>xlsx_file := Some (write_xlsx (resultset st))\<rparr>)))))"

definition export_sqlite_block ::
  "options \<Rightarrow> 's run_env \<Rightarrow> shared \<Rightarrow> files \<Rightarrow> string option \<times> shared \<times> files" where
  "export_sqlite_block opts env st fs =
     (case export_sqlite opts of
        None \<Rightarrow> (None, st, fs)
      | Some path \<Rightarrow>
          (case print_line (print_error env) (''[>] Exporting results to '' @ path @ '' ...'')
                  st of
             (Some e, st1) \<Rightarrow> (Some e, st1, fs)
           | (None, st1) \<Rightarrow>
               (case io_error env path of
                  Some e \<Rightarrow> (Some e, st1, fs)
                | None \<Rightarrow>
                    (case print_line (print_error env) done_message st1 of
                       (err, st2) \<Rightarrow>
                         (err, st2,
                          fs\<lparr>sqlite_file :=
                                Some (write_sqlite (sqlite_table env path) (resultset st))\<rparr>)))))"

definition no_files :: files where
  "no_files = \<lparr>json_file = None, xlsx_file = None, sqlite_file = None\<rparr>"

definition export_all ::
  "options \<Rightarrow> 's run_env \<Rightarrow> shared \<Rightarrow> string option \<times> shared \<times> files" where
  "export_all opts env st =
     (case export_json_block opts env st no_files of
        (Some e, st1, fs1) \<Rightarrow> (Some e, st1, fs1)
      | (None, st1, fs1) \<Rightarrow>
          (case export_xlsx_block opts env st1 fs1 of
             (Some e, st2, fs2) \<Rightarrow> (Some e, st2, fs2)
           | (None, st2, fs2) \<Rightarrow> export_sqlite_block opts env st2 fs2))"

text \<open>The two messages after the enumeration, printed unless \<^verbatim>\<open>quiet\<close> is set, and
  the one before it.\<close>

definition announce_extraction :: "options \<Rightarrow> 's run_env \<Rightarrow> shared \<Rightarrow> string option \<times> shared" where
  "announce_extraction opts env st =
     (if \<not> quiet opts then print_line (print_error env) extracting_message st
      else (None, st))"

definition announce_computers ::
  "options \<Rightarrow> 's run_env \<Rightarrow> computers \<Rightarrow> shared \<Rightarrow> string option \<times> shared" where
  "announce_computers opts env computers st =
     (if \<not> quiet opts
      then print_lines (print_error env)
             [found_message (length (dict_keys computers)), enumerating_message] st
      else (None, st))"

text \<open>
  The script after \<^verbatim>\<open>parse_args\<close>. \<^verbatim>\<open>ThreadPoolExecutor\<close> raises \<^verbatim>\<open>ValueError\<close>
  when \<^verbatim>\<open>max_workers\<close> is not positive. The result is \<open>None\<close> when the paged search
  never ends. The two hashes that the script splits out of \<^verbatim>\<open>auth_hashes\<close> only go
  into the bind and the sessions, whose outcomes are given.
\<close>

definition main_body :: "options \<Rightarrow> 's run_env \<Rightarrow> run option" where
  "main_body opts env =
     (case ldap_bind env of
        Raises e \<Rightarrow>
          Some \<lparr>ending = Uncaught e, tasks = \<lparr>resultset = [], console = []\<rparr>,
                exported = no_files\<rparr>
      | Returns u \<Rightarrow>
          (case announce_extraction opts env \<lparr>resultset = [], console = []\<rparr> of
             (Some e, st1) \<Rightarrow> Some \<lparr>ending = Uncaught e, tasks = st1, exported = no_files\<rparr>
           | (None, st1) \<Rightarrow>
               (case get_domain_computers (ldap_search env) (ldap_session env) of
                  None \<Rightarrow> None
                | Some computers \<Rightarrow>
                    (case announce_computers opts env computers st1 of
                       (Some e, st2) \<Rightarrow>
                         Some \<lparr>ending = Uncaught e, tasks = st2, exported = no_files\<rparr>
                     | (None, st2) \<Rightarrow>
                         if min (threads opts) (int (length (dict_keys computers))) \<le> 0
                         then Some \<lparr>ending =
                                      Uncaught ''ValueError: max_workers must be greater than 0'',
                                    tasks = st2, exported = no_files\<rparr>
                         else
                           (case export_all opts env
                                   (submit_all (print_error env) opts (hosts env) computers st2) of
                              (Some e, st3, fs) \<Rightarrow>
                                Some \<lparr>ending = Uncaught e, tasks = st3, exported = fs\<rparr>
                            | (None, st3, fs) \<Rightarrow>
                                Some \<lparr>ending = Exited 0, tasks = st3, exported = fs\<rparr>)))))"

text \<open>The whole script: \<^verbatim>\<open>parse_args\<close>, then the body unless \<^verbatim>\<open>parse_args\<close> left
  the program. The result is the lines printed by \<^verbatim>\<open>parse_args\<close> and the run.\<close>

definition script :: "cli_env \<Rightarrow> 's run_env \<Rightarrow> string list \<Rightarrow> (string list \<times> run) option" where
  "script cli env argv =
     (case parse_args cli argv of
        (out, Inl code) \<Rightarrow>
          Some (out, \<lparr>ending = Exited code, tasks = \<lparr>resultset = [], console = []\<rparr>,
                      exported = no_files\<rparr>)
      | (out, Inr (opts, prompted)) \<Rightarrow>
          (case main_body opts env of
             None \<Rightarrow> None
           | Some r \<Rightarrow> Some (out, r)))"


section \<open>Notions used in the statements\<close>

text \<open>
  The four flags of the low two bits, in the order of their values.
\<close>

definition category_flags :: "string list" where
  "category_flags = [''STYPE_DISKTREE'', ''STYPE_PRINTQ'', ''STYPE_DEVICE'', ''STYPE_IPC'']"

text \<open>
  All the entries of a result set, host after host in the order of the dictionary.
\<close>

definition all_records :: "results \<Rightarrow> share_record list" where
  "all_records res = concat (map snd res)"

text \<open>
  The data rows of a worksheet that holds one row for each entry, from row \<open>n\<close>
  downwards, each written from column 0.
\<close>

definition data_rows :: "nat \<Rightarrow> share_record list \<Rightarrow> (nat \<times> nat \<times> cell list) list" where
  "data_rows n recs = map (\<lambda>(i, sh). (i, 0, xlsx_data sh)) (enumerate n recs)"

text \<open>
  A probe that records nothing: the name lookup raises or has no answer, the session
  cannot be opened (connection or authentication), or the share listing raises.
\<close>

definition probe_failed :: "options \<Rightarrow> host_env \<Rightarrow> bool" where
  "probe_failed opts env =
     (case dns_answer env of
        Raises e \<Rightarrow> True
      | Returns [] \<Rightarrow> True
      | Returns (i # other) \<Rightarrow>
          (case init_smb_session opts env of
             Raises e \<Rightarrow> True
           | Returns u \<Rightarrow>
               (case list_shares env of Raises e \<Rightarrow> True | Returns resp \<Rightarrow> False)))"



text \<open>The paths of the exports that the options ask for.\<close>

definition requested_paths :: "options \<Rightarrow> string list" where
  "requested_paths opts =
     (case export_json opts of None \<Rightarrow> [] | Some p \<Rightarrow> [p]) @
     (case export_xlsx opts of None \<Rightarrow> [] | Some p \<Rightarrow> [p]) @
     (case export_sqlite opts of None \<Rightarrow> [] | Some p \<Rightarrow> [p])"

section \<open>Sample runs\<close>

text \<open>
  A directory of two computers sent in two pages, the first of which also holds a
  referral. The first computer lists the common share \<^verbatim>\<open>C$\<close> and a share
  \<^verbatim>\<open>Data\<close>, both strings ending with a terminator; the second one refuses the
  login. Every line can be printed and every file written. The scanner of the command
  line is given for the command lines used below.
\<close>

definition sample_opts :: options where
  "sample_opts = default_namespace\<lparr>dc_ip := Some ''10.0.0.1''\<rparr>"

definition share_c :: share_info_1 where
  "share_c = \<lparr>shi1_netname = ''C$'' @ [CHR 0x00], shi1_remark = ''Default share'' @ [CHR 0x00],
               shi1_type = 0x80000000\<rparr>"

definition share_data :: share_info_1 where
  "share_data = \<lparr>shi1_netname = ''Data'' @ [CHR 0x00], shi1_remark = [CHR 0x00], shi1_type = 0\<rparr>"

definition host_ok :: host_env where
  "host_ok = \<lparr>dns_answer = Returns [''10.0.0.5''], smb_connect = Returns (),
               smb_login = Returns (), list_shares = Returns [share_c, share_data]\<rparr>"

definition host_denied :: host_env where
  "host_denied = \<lparr>dns_answer = Returns [''10.0.0.6''], smb_connect = Returns (),
                   smb_login = Raises ''STATUS_LOGON_FAILURE'', list_shares = Returns []\<rparr>"

definition sample_net :: "string \<Rightarrow> host_env" where
  "sample_net h = (if h = ''pc1.lab'' then host_ok else host_denied)"

definition entry_pc1 :: ldap_entry where
  "entry_pc1 = \<lparr>entry_type = ''searchResEntry'', dn = ''CN=PC1,DC=lab'',
                 attributes = \<lparr>dNSHostName = ''pc1.lab'', sAMAccountName = ''PC1$''\<rparr>\<rparr>"

definition entry_pc2 :: ldap_entry where
  "entry_pc2 = \<lparr>entry_type = ''searchResEntry'', dn = ''CN=PC2,DC=lab'',
                 attributes = \<lparr>dNSHostName = ''pc2.lab'', sAMAccountName = ''PC2$''\<rparr>\<rparr>"

definition entry_ref :: ldap_entry where
  "entry_ref = \<lparr>entry_type = ''searchResRef'', dn = [],
                 attributes = \<lparr>dNSHostName = [], sAMAccountName = []\<rparr>\<rparr>"

definition sample_pages :: "search_reply list" where
  "sample_pages =
     [\<lparr>result_controls = Some [(LDAP_PAGED_RESULT_OID_STRING, ''k1'')],
       response = [entry_pc1, entry_ref]\<rparr>,
      \<lparr>result_controls = Some [(LDAP_PAGED_RESULT_OID_STRING, [])],
       response = [entry_pc2]\<rparr>]"

definition sample_env :: "sim_server run_env" where
  "sample_env =
     \<lparr>ldap_bind = Returns (), ldap_search = sim_search, ldap_session = sim_start sample_pages,
      hosts = sample_net, print_error = (\<lambda>line. None), io_error = (\<lambda>path. None),
      sqlite_table = (\<lambda>path. [])\<rparr>"

definition login_words :: "string list" where
  "login_words = [''--dc-ip'', ''10.0.0.1'', ''-d'', ''lab'', ''-u'', ''alice'', ''-p'', ''Passw0rd'']"

definition login_args :: "cli_arg list" where
  "login_args = [ArgDcIp ''10.0.0.1'', ArgDomain ''lab'', ArgUser ''alice'', ArgPassword ''Passw0rd'']"

definition sample_scan :: "string list \<Rightarrow> int + cli_arg list" where
  "sample_scan words =
     (if words = [''--dc-ip'', ''10.0.0.1''] then Inr [ArgDcIp ''10.0.0.1'']
      else if words = login_words then Inr login_args
      else if words = login_words @ [''-I''] then Inr (login_args @ [ArgIgnoreHiddenShares])
      else if words = login_words @ [''-t'', ''0''] then Inr (login_args @ [ArgThreads 0])
      else if words = [''-h''] then Inl 0
      else Inl 2)"

definition sample_cli :: cli_env where
  "sample_cli = \<lparr>scan = sample_scan, help_text = ''usage: FindUncommonShares.py [-h] ...'',
                  typed_password = ''hunter2''\<rparr>"



definition sample_results :: results where
  "sample_results =
     [(''pc1.lab'', [share_entry ''pc1.lab'' ''10.0.0.5'' share_c,
                     share_entry ''pc1.lab'' ''10.0.0.5'' share_data])]"

definition sample_run :: run where
  "sample_run =
     \<lparr>ending = Exited 0,
      tasks = \<lparr>resultset = sample_results,
               console = [extracting_message, found_message 2, enumerating_message] @
                         discovery_lines sample_opts ''Data'' [] ''pc1.lab''\<rparr>,
      exported = no_files\<rparr>"








text \<open>A directory that holds no computer: one page without an entry, with an empty
  cookie.\<close>

definition empty_pages :: "search_reply list" where
  "empty_pages = [\<lparr>result_controls = Some [(LDAP_PAGED_RESULT_OID_STRING, [])], response = []\<rparr>]"

definition empty_env :: "sim_server run_env" where
  "empty_env = sample_env\<lparr>ldap_session := sim_start empty_pages\<rparr>"

section \<open>Auxiliary facts\<close>

subsection \<open>Bits, strings and dictionaries\<close>

lemma and_3_eq_mod_4: "(v::int) AND 3 = v mod 4"
proof -
  have "v AND 3 = v AND mask 2" by (simp add: mask_eq_exp_minus_1)
  also have "\<dots> = take_bit 2 v" by (simp add: take_bit_eq_mask)
  also have "\<dots> = v mod 4" by (simp add: take_bit_eq_mod)
  finally show ?thesis .
qed

lemma bit_31_test: "((v::int) AND 0x80000000 = 0) = (\<not> bit v 31)"
proof -
  have "(0x80000000::int) = 2 ^ 31" by simp
  then show ?thesis by (simp only: and_exp_eq_0_iff_not_bit)
qed

lemma bit_30_test: "((v::int) AND 0x40000000 = 0) = (\<not> bit v 30)"
proof -
  have "(0x40000000::int) = 2 ^ 30" by simp
  then show ?thesis by (simp only: and_exp_eq_0_iff_not_bit)
qed


lemma endswith_dollar: "endswith s ''$'' = (s \<noteq> [] \<and> last s = CHR ''$'')"
proof (cases s rule: rev_cases)
  case Nil
  then show ?thesis by (simp add: endswith_def)
next
  case (snoc ys y)
  then show ?thesis by (auto simp add: endswith_def)
qed

lemma keys_dict_set_list:
  "map fst (dict_set d k v) = (if k \<in> set (map fst d) then map fst d else map fst d @ [k])"
  by (induction d) force+

lemma dict_set_new: "k \<notin> set (map fst d) \<Longrightarrow> dict_set d k v = d @ [(k, v)]"
  by (induction d) auto

lemma map_of_dict_set: "map_of (dict_set d k v) = (map_of d)(k \<mapsto> v)"
  by (induction d) (auto simp add: fun_eq_iff)

lemma keys_dict_set: "set (map fst (dict_set d k v)) = insert k (set (map fst d))"
  by (auto simp add: keys_dict_set_list)

lemma distinct_dict_set: "distinct (map fst d) \<Longrightarrow> distinct (map fst (dict_set d k v))"
  by (simp add: keys_dict_set_list)

subsection \<open>The entries of a result set\<close>

lemma all_records_Nil: "all_records [] = []"
  by (simp add: all_records_def)

lemma all_records_Cons: "all_records ((k, v) # d) = v @ all_records d"
  by (simp add: all_records_def)

lemma all_records_append: "all_records (d @ d') = all_records d @ all_records d'"
  by (simp add: all_records_def)

lemma records_dict_set_append:
  "map_of d k = Some v \<Longrightarrow>
   set (all_records (dict_set d k (v @ [e]))) = insert e (set (all_records d))"
proof (induction d)
  case Nil
  then show ?case by simp
next
  case (Cons p d)
  obtain k' v' where p: "p = (k', v')" by (cases p)
  show ?case
  proof (cases "k' = k")
    case True
    with Cons.prems p have "v' = v" by simp
    with True p show ?thesis by (simp add: all_records_Cons)
  next
    case False
    with Cons.prems p have "map_of d k = Some v" by simp
    then have "set (all_records (dict_set d k (v @ [e]))) = insert e (set (all_records d))"
      by (rule Cons.IH)
    with False p show ?thesis by (simp add: all_records_Cons)
  qed
qed

lemma records_record_share:
  "set (all_records (record_share res t i sh)) = insert (share_entry t i sh) (set (all_records res))"
proof (cases "t \<in> set (map fst res)")
  case True
  then obtain v where v: "map_of res t = Some v"
    by (metis map_of_eq_None_iff not_Some_eq set_map)
  then show ?thesis using True
    by (simp add: record_share_def dict_keys_def records_dict_set_append)
next
  case False
  let ?res1 = "dict_set res t []"
  have m: "map_of ?res1 t = Some []" by (simp add: map_of_dict_set)
  have "set (all_records (dict_set ?res1 t ([] @ [share_entry t i sh])))
      = insert (share_entry t i sh) (set (all_records ?res1))"
    using m by (rule records_dict_set_append)
  moreover have "all_records ?res1 = all_records res"
    using False by (simp add: dict_set_new all_records_append all_records_Cons all_records_Nil)
  moreover have "record_share res t i sh = dict_set ?res1 t ([] @ [share_entry t i sh])"
    using False m by (simp add: record_share_def dict_keys_def)
  ultimately show ?thesis by simp
qed



lemma share_entry_hidden:
  "hidden (share (share_entry t i sh)) =
     (name (share (share_entry t i sh)) \<noteq> [] \<and> last (name (share (share_entry t i sh))) = CHR ''$'')"
  by (simp add: share_entry_def Let_def endswith_dollar)

subsection \<open>The exporters\<close>

lemma data_rows_Nil: "data_rows n [] = []"
  by (simp add: data_rows_def)

lemma data_rows_Cons: "data_rows n (sh # recs) = (n, 0, xlsx_data sh) # data_rows (Suc n) recs"
  by (simp add: data_rows_def)

lemma data_rows_append:
  "data_rows n (xs @ ys) = data_rows n xs @ data_rows (n + length xs) ys"
  by (simp add: data_rows_def enumerate_append_eq)

lemma xlsx_share_loop_eq:
  "xlsx_share_loop shares (ws, n) =
     (ws\<lparr>written := written ws @ data_rows n shares\<rparr>, n + length shares)"
proof (induction shares arbitrary: ws n)
  case Nil
  show ?case by (simp add: data_rows_Nil)
next
  case (Cons sh shares)
  show ?case by (simp add: Cons.IH write_row_def data_rows_Cons)
qed

lemma xlsx_computer_loop_eq:
  "xlsx_computer_loop res (ws, n) =
     (ws\<lparr>written := written ws @ data_rows n (all_records res)\<rparr>,
      n + length (all_records res))"
proof (induction res arbitrary: ws n)
  case Nil
  show ?case by (simp add: data_rows_Nil all_records_Nil)
next
  case (Cons p res)
  obtain k v where p: "p = (k, v)" by (cases p)
  show ?case
    by (simp add: p xlsx_share_loop_eq Cons.IH all_records_Cons data_rows_append add.assoc)
qed

lemma write_xlsx_eq:
  "write_xlsx res =
     \<lparr>written = (0, 0, map Str header_fields) # data_rows 1 (all_records res),
      autofilter = Some (0, 0, Suc (length (all_records res)), 4)\<rparr>"
  by (simp add: write_xlsx_def xlsx_computer_loop_eq write_row_def header_fields_def)






subsection \<open>Printing\<close>

lemma resultset_print_line: "resultset (snd (print_line perr line st)) = resultset st"
  by (simp add: print_line_def split: option.splits)

lemma fst_print_line: "fst (print_line perr line st) = perr line"
  by (simp add: print_line_def split: option.splits)

lemma resultset_print_lines: "resultset (snd (print_lines perr ls st)) = resultset st"
proof (induction ls arbitrary: st)
  case Nil
  show ?case by simp
next
  case (Cons line ls)
  obtain err st' where p: "print_line perr line st = (err, st')"
    by (cases "print_line perr line st")
  have "resultset st' = resultset st"
    using resultset_print_line [of perr line st] p by simp
  then show ?case by (cases err) (simp_all add: p Cons.IH)
qed

lemma fst_print_lines_cong: "fst (print_lines perr ls st) = fst (print_lines perr ls st')"
proof (induction ls arbitrary: st st')
  case Nil
  show ?case by simp
next
  case (Cons line ls)
  obtain err st1 where p: "print_line perr line st = (err, st1)"
    by (cases "print_line perr line st")
  obtain err' st1' where p': "print_line perr line st' = (err', st1')"
    by (cases "print_line perr line st'")
  have "err' = err"
    using fst_print_line [of perr line st] fst_print_line [of perr line st'] p p' by simp
  with p' have p'': "print_line perr line st' = (err, st1')" by simp
  show ?case
    using Cons.IH [of st1 st1'] by (cases err) (simp_all add: p p'')
qed


subsection \<open>The loop over the shares\<close>

lemma resultset_share_step:
  "resultset (snd (share_step perr opts t i a sh st)) = record_share (resultset st) t i sh"
  by (simp add: share_step_def Let_def resultset_print_lines)

lemma fst_share_step_cong:
  "fst (share_step perr opts t i a sh st) = fst (share_step perr opts t i a sh st')"
  unfolding share_step_def Let_def by (rule fst_print_lines_cong)


lemma share_loop_continue:
  "fst (share_step perr opts t i a sh st) = None \<Longrightarrow>
   share_loop perr opts t i a (sh # resp) st =
     share_loop perr opts t i a resp (snd (share_step perr opts t i a sh st))"
  by (cases "share_step perr opts t i a sh st") simp

lemma share_loop_stop:
  "fst (share_step perr opts t i a sh st) \<noteq> None \<Longrightarrow>
   share_loop perr opts t i a (sh # resp) st = share_step perr opts t i a sh st"
  by (cases "share_step perr opts t i a sh st") auto

lemma share_loop_cong:
  "resultset st1 = resultset st2 \<Longrightarrow>
   fst (share_loop perr opts t i a resp st1) = fst (share_loop perr opts t i a resp st2) \<and>
   resultset (snd (share_loop perr opts t i a resp st1)) =
     resultset (snd (share_loop perr opts t i a resp st2))"
proof (induction resp arbitrary: st1 st2)
  case Nil
  then show ?case by simp
next
  case (Cons sh resp)
  have f: "fst (share_step perr opts t i a sh st1) = fst (share_step perr opts t i a sh st2)"
    by (rule fst_share_step_cong)
  have r: "resultset (snd (share_step perr opts t i a sh st1)) =
           resultset (snd (share_step perr opts t i a sh st2))"
    using Cons.prems by (simp add: resultset_share_step)
  show ?case
  proof (cases "fst (share_step perr opts t i a sh st1) = None")
    case True
    with f have True': "fst (share_step perr opts t i a sh st2) = None" by simp
    show ?thesis
      unfolding share_loop_continue [OF True] share_loop_continue [OF True']
      by (rule Cons.IH [OF r])
  next
    case False
    with f have False': "fst (share_step perr opts t i a sh st2) \<noteq> None" by simp
    show ?thesis
      unfolding share_loop_stop [OF False] share_loop_stop [OF False']
      using f r by simp
  qed
qed


lemma share_loop_subset:
  "set (all_records (resultset (snd (share_loop perr opts t i a resp st)))) \<subseteq>
   set (all_records (resultset st)) \<union> share_entry t i ` set resp"
proof (induction resp arbitrary: st)
  case Nil
  show ?case by simp
next
  case (Cons sh resp)
  let ?st = "snd (share_step perr opts t i a sh st)"
  have step: "set (all_records (resultset ?st)) =
              insert (share_entry t i sh) (set (all_records (resultset st)))"
    by (simp add: resultset_share_step records_record_share)
  show ?case
  proof (cases "fst (share_step perr opts t i a sh st) = None")
    case True
    show ?thesis
      unfolding share_loop_continue [OF True]
      using step Cons.IH [of ?st] by auto
  next
    case False
    show ?thesis
      unfolding share_loop_stop [OF False]
      using step by auto
  qed
qed



subsection \<open>The tasks\<close>

lemma resultset_except_handler:
  "resultset (snd (except_handler perr opts e st)) = resultset st"
  by (simp add: except_handler_def resultset_print_line)


lemma resultset_worker:
  "resultset (snd (worker perr opts t a env st)) =
     (case dns_answer env of
        Raises e \<Rightarrow> resultset st
      | Returns [] \<Rightarrow> resultset st
      | Returns (i # other) \<Rightarrow>
          (case init_smb_session opts env of
             Raises e \<Rightarrow> resultset st
           | Returns u \<Rightarrow>
               (case list_shares env of
                  Raises e \<Rightarrow> resultset st
                | Returns resp \<Rightarrow> resultset (snd (share_loop perr opts t i a resp st)))))"
  by (simp add: worker_def resultset_except_handler
      split: outcome.splits list.splits prod.splits option.splits)

lemma resultset_worker_cong:
  assumes "resultset st1 = resultset st2"
  shows "resultset (snd (worker perr opts t a env st1)) =
         resultset (snd (worker perr opts t a env st2))"
  using assms share_loop_cong [OF assms]
  by (simp add: resultset_worker split: outcome.splits list.splits)



lemma worker_invariant:
  assumes "\<And>t i sh. Q (share_entry t i sh)"
    and "\<forall>e\<in>set (all_records (resultset st)). Q e"
  shows "\<forall>e\<in>set (all_records (resultset (snd (worker perr opts t a env st)))). Q e"
proof -
  have "\<forall>e\<in>set (all_records (resultset (snd (share_loop perr opts t i a resp st)))). Q e"
    for i resp
    using share_loop_subset [of perr opts t i a resp st] assms by auto
  with assms(2) show ?thesis
    by (simp add: resultset_worker split: outcome.splits list.splits)
qed


lemma failed_probe_no_effect:
  "probe_failed opts env \<Longrightarrow> resultset (snd (worker perr opts t a env st)) = resultset st"
  by (simp add: probe_failed_def resultset_worker split: outcome.splits list.splits)

lemma submit_all_append:
  "submit_all perr opts net (xs @ ys) st = submit_all perr opts net ys (submit_all perr opts net xs st)"
proof (induction xs arbitrary: st)
  case Nil
  show ?case by simp
next
  case (Cons p xs)
  obtain ck c where p: "p = (ck, c)" by (cases p)
  show ?case by (simp add: p Cons.IH)
qed

lemma resultset_submit_all_cong:
  "resultset st1 = resultset st2 \<Longrightarrow>
   resultset (submit_all perr opts net cs st1) = resultset (submit_all perr opts net cs st2)"
proof (induction cs arbitrary: st1 st2)
  case Nil
  then show ?case by simp
next
  case (Cons p cs)
  obtain ck c where p: "p = (ck, c)" by (cases p)
  show ?case
    unfolding p submit_all.simps
    by (rule Cons.IH) (rule resultset_worker_cong [OF Cons.prems])
qed



lemma submit_all_invariant:
  assumes "\<And>t i sh. Q (share_entry t i sh)"
  shows "(\<forall>e\<in>set (all_records (resultset st)). Q e) \<Longrightarrow>
         (\<forall>e\<in>set (all_records (resultset (submit_all perr opts net cs st))). Q e)"
proof (induction cs arbitrary: st)
  case Nil
  then show ?case by simp
next
  case (Cons p cs)
  obtain ck c where p: "p = (ck, c)" by (cases p)
  show ?case
    unfolding p submit_all.simps
    by (rule Cons.IH) (rule worker_invariant [where Q = Q, OF assms Cons.prems])
qed


lemma failed_probe_skipped:
  assumes "probe_failed opts (net (dNSHostName c))"
  shows "resultset (submit_all perr opts net (pre @ (ck, c) # post) st) =
         resultset (submit_all perr opts net (pre @ post) st)"
proof -
  let ?st = "submit_all perr opts net pre st"
  let ?st' = "snd (worker perr opts (dNSHostName c) (dNSHostName c) (net (dNSHostName c)) ?st)"
  have "resultset ?st' = resultset ?st"
    using assms by (rule failed_probe_no_effect)
  then have "resultset (submit_all perr opts net post ?st') =
             resultset (submit_all perr opts net post ?st)"
    by (rule resultset_submit_all_cong)
  then show ?thesis by (simp add: submit_all_append)
qed


subsection \<open>The export blocks\<close>

lemma print_line_result:
  "print_line perr line st = (err, st') \<Longrightarrow> err = perr line \<and> resultset st' = resultset st"
  by (auto simp add: print_line_def split: option.splits)

lemma export_json_block_result:
  assumes "export_json_block opts env st fs = (err, st', fs')"
  shows "resultset st' = resultset st \<and> xlsx_file fs' = xlsx_file fs \<and>
         sqlite_file fs' = sqlite_file fs \<and>
         (err = None \<longrightarrow> export_json opts \<noteq> None \<longrightarrow> json_file fs' = Some (resultset st))"
  using assms
  by (auto simp add: export_json_block_def dest!: print_line_result
      split: option.splits prod.splits)

lemma export_xlsx_block_result:
  assumes "export_xlsx_block opts env st fs = (err, st', fs')"
  shows "resultset st' = resultset st \<and> json_file fs' = json_file fs \<and>
         sqlite_file fs' = sqlite_file fs \<and>
         (err = None \<longrightarrow> export_xlsx opts \<noteq> None \<longrightarrow>
            xlsx_file fs' = Some (write_xlsx (resultset st)))"
  using assms
  by (auto simp add: export_xlsx_block_def dest!: print_line_result
      split: option.splits prod.splits)

lemma export_sqlite_block_result:
  assumes "export_sqlite_block opts env st fs = (err, st', fs')"
  shows "resultset st' = resultset st \<and> json_file fs' = json_file fs \<and>
         xlsx_file fs' = xlsx_file fs \<and>
         (err = None \<longrightarrow> (\<forall>p. export_sqlite opts = Some p \<longrightarrow>
            sqlite_file fs' = Some (write_sqlite (sqlite_table env p) (resultset st))))"
  using assms
  by (auto simp add: export_sqlite_block_def dest!: print_line_result
      split: option.splits prod.splits)

lemma export_all_result:
  assumes "export_all opts env st = (err, st', fs)"
  shows "resultset st' = resultset st"
proof -
  obtain e1 st1 fs1 where b1: "export_json_block opts env st no_files = (e1, st1, fs1)"
    by (cases "export_json_block opts env st no_files")
  obtain e2 st2 fs2 where b2: "export_xlsx_block opts env st1 fs1 = (e2, st2, fs2)"
    by (cases "export_xlsx_block opts env st1 fs1")
  obtain e3 st3 fs3 where b3: "export_sqlite_block opts env st2 fs2 = (e3, st3, fs3)"
    by (cases "export_sqlite_block opts env st2 fs2")
  note r1 = export_json_block_result [OF b1]
  note r2 = export_xlsx_block_result [OF b2]
  note r3 = export_sqlite_block_result [OF b3]
  show ?thesis
    using assms r1 r2 r3
    by (cases e1; cases e2) (auto simp add: export_all_def b1 b2 b3)
qed


lemma export_all_clean:
  assumes "\<forall>line. print_error env line = None"
    and "\<forall>p\<in>set (requested_paths opts). io_error env p = None"
  shows "fst (export_all opts env st) = None"
  using assms
  by (auto simp add: export_all_def export_json_block_def export_xlsx_block_def
      export_sqlite_block_def print_line_def requested_paths_def
      split: option.splits prod.splits)





subsection \<open>The script\<close>

lemma announce_extraction_result:
  "announce_extraction opts env st = (err, st') \<Longrightarrow> resultset st' = resultset st"
  by (auto simp add: announce_extraction_def dest: print_line_result split: if_splits)

lemma announce_computers_result:
  "announce_computers opts env cs st = (err, st') \<Longrightarrow> resultset st' = resultset st"
  using resultset_print_lines [of "print_error env"
      "[found_message (length (dict_keys cs)), enumerating_message]" st]
  by (auto simp add: announce_computers_def split: if_splits)


lemma main_body_invariant:
  assumes "\<And>t i sh. Q (share_entry t i sh)"
    and "main_body opts env = Some r"
  shows "\<forall>e\<in>set (all_records (resultset (tasks r))). Q e"
proof -
  obtain e1 st1 where a1: "announce_extraction opts env \<lparr>resultset = [], console = []\<rparr> = (e1, st1)"
    by (cases "announce_extraction opts env \<lparr>resultset = [], console = []\<rparr>")
  have r1: "resultset st1 = []"
    using announce_extraction_result [OF a1] by simp
  have after: "\<forall>e\<in>set (all_records (resultset st3)). Q e"
    if "announce_computers opts env cs st1 = (e2, st2)"
      and "export_all opts env (submit_all (print_error env) opts (hosts env) cs st2) = (e3, st3, fs)"
    for cs e2 st2 e3 st3 fs
  proof -
    have "resultset st2 = []"
      using announce_computers_result [OF that(1)] r1 by simp
    then have "\<forall>e\<in>set (all_records (resultset st2)). Q e"
      by (simp add: all_records_Nil)
    with assms(1)
    have "\<forall>e\<in>set (all_records (resultset (submit_all (print_error env) opts (hosts env) cs st2))). Q e"
      by (rule submit_all_invariant [where Q = Q])
    then show ?thesis
      using export_all_result [OF that(2)] by simp
  qed
  have empty: "\<forall>e\<in>set (all_records (resultset st)). Q e" if "resultset st = []" for st
    using that by (simp add: all_records_Nil)
  show ?thesis
  proof (cases "ldap_bind env")
    case (Raises e)
    with assms(2) show ?thesis
      by (auto simp add: main_body_def all_records_Nil)
  next
    case (Returns u)
    show ?thesis
    proof (cases e1)
      case (Some e)
      with assms(2) Returns a1 r1 show ?thesis
        by (auto simp add: main_body_def all_records_Nil)
    next
      case None
      from assms(2) Returns a1 None obtain cs where
        cs: "get_domain_computers (ldap_search env) (ldap_session env) = Some cs"
        by (cases "get_domain_computers (ldap_search env) (ldap_session env)")
           (auto simp add: main_body_def)
      obtain e2 st2 where a2: "announce_computers opts env cs st1 = (e2, st2)"
        by (cases "announce_computers opts env cs st1")
      have r2: "resultset st2 = []"
        using announce_computers_result [OF a2] r1 by simp
      obtain e3 st3 fs where a3:
        "export_all opts env (submit_all (print_error env) opts (hosts env) cs st2) = (e3, st3, fs)"
        by (cases "export_all opts env (submit_all (print_error env) opts (hosts env) cs st2)")
      have "tasks r = st2 \<or> tasks r = st3"
        using assms(2) Returns a1 None cs a2 a3
        by (auto simp add: main_body_def split: option.splits if_splits)
      then show ?thesis
        using empty [OF r2] after [OF a2 a3] by auto
    qed
  qed
qed

lemma main_body_completes:
  assumes "ldap_bind env = Returns u"
    and "get_domain_computers (ldap_search env) (ldap_session env) = Some cs"
    and "0 < min (threads opts) (int (length cs))"
    and "\<forall>line. print_error env line = None"
    and "\<forall>p\<in>set (requested_paths opts). io_error env p = None"
  shows "\<exists>r. main_body opts env = Some r \<and> ending r = Exited 0 \<and>
           resultset (tasks r) =
             resultset (submit_all (print_error env) opts (hosts env) cs
                          \<lparr>resultset = [], console = []\<rparr>)"
proof -
  obtain e1 st1 where a1: "announce_extraction opts env \<lparr>resultset = [], console = []\<rparr> = (e1, st1)"
    by (cases "announce_extraction opts env \<lparr>resultset = [], console = []\<rparr>")
  have n1: "e1 = None"
    using a1 assms(4) by (auto simp add: announce_extraction_def print_line_def split: if_splits)
  have r1: "resultset st1 = []"
    using announce_extraction_result [OF a1] by simp
  obtain e2 st2 where a2: "announce_computers opts env cs st1 = (e2, st2)"
    by (cases "announce_computers opts env cs st1")
  have n2: "e2 = None"
    using a2 assms(4) by (auto simp add: announce_computers_def print_line_def split: if_splits)
  have r2: "resultset st2 = []"
    using announce_computers_result [OF a2] r1 by simp
  let ?st = "submit_all (print_error env) opts (hosts env) cs st2"
  obtain e3 st3 fs where a3: "export_all opts env ?st = (e3, st3, fs)"
    by (cases "export_all opts env ?st")
  have n3: "e3 = None"
    using export_all_clean [OF assms(4,5), of ?st] a3 by simp
  have pool: "\<not> min (threads opts) (int (length (dict_keys cs))) \<le> 0"
    using assms(3) by (simp add: dict_keys_def not_le)
  have run: "main_body opts env = Some \<lparr>ending = Exited 0, tasks = st3, exported = fs\<rparr>"
    using assms(1,2) a1 n1 a2 n2 a3 n3 pool by (simp add: main_body_def)
  have "resultset st3 = resultset ?st"
    using export_all_result [OF a3] .
  also have "\<dots> = resultset (submit_all (print_error env) opts (hosts env) cs
                          \<lparr>resultset = [], console = []\<rparr>)"
    by (rule resultset_submit_all_cong) (simp add: r2)
  finally show ?thesis using run by simp
qed

subsection \<open>The paged search\<close>

lemma computer_attrs_eta:
  "\<lparr>dNSHostName = dNSHostName x, sAMAccountName = sAMAccountName x\<rparr> = x"
  by (cases x) simp

lemma collect_entries_eq:
  "collect_entries es res =
     foldl (\<lambda>r (k, v). dict_set r k v) res
       (map (\<lambda>e. (dn e, attributes e)) (filter (\<lambda>e. entry_type e = ''searchResEntry'') es))"
  by (induction es arbitrary: res) (simp_all add: computer_attrs_eta)

lemma foldl_pages_eq:
  "foldl (\<lambda>r p. collect_entries (response p) r) res pages =
     foldl (\<lambda>r (k, v). dict_set r k v) res (computer_entries pages)"
proof (induction pages arbitrary: res)
  case Nil
  show ?case by (simp add: computer_entries_def)
next
  case (Cons p pages)
  have "computer_entries (p # pages) = computer_entries [p] @ computer_entries pages"
    by (simp add: computer_entries_def)
  moreover have "collect_entries (response p) res =
      foldl (\<lambda>r (k, v). dict_set r k v) res (computer_entries [p])"
    by (simp add: collect_entries_eq computer_entries_def)
  ultimately show ?case by (simp add: Cons.IH)
qed

lemma map_of_foldl_dict_set:
  "map_of (foldl (\<lambda>r (k, v). dict_set r k v) res kvs) = map_of res ++ map_of (rev kvs)"
proof (induction kvs arbitrary: res)
  case Nil
  show ?case by simp
next
  case (Cons p kvs)
  obtain k v where p: "p = (k, v)" by (cases p)
  show ?case
    by (simp add: p Cons.IH map_of_dict_set map_add_upd_left fun_eq_iff map_add_def
        split: option.splits)
qed

lemma distinct_foldl_dict_set:
  "distinct (map fst res) \<Longrightarrow> distinct (map fst (foldl (\<lambda>r (k, v). dict_set r k v) res kvs))"
proof (induction kvs arbitrary: res)
  case Nil
  then show ?case by simp
next
  case (Cons p kvs)
  obtain k v where p: "p = (k, v)" by (cases p)
  show ?case unfolding p using Cons.prems by (simp add: Cons.IH distinct_dict_set)
qed

lemma foldl_dict_set_distinct:
  "distinct (map fst (res @ kvs)) \<Longrightarrow> foldl (\<lambda>r (k, v). dict_set r k v) res kvs = res @ kvs"
proof (induction kvs arbitrary: res)
  case Nil
  show ?case by simp
next
  case (Cons p kvs)
  obtain k v where p: "p = (k, v)" by (cases p)
  from Cons.prems p have new: "k \<notin> set (map fst res)" by auto
  from Cons.prems p have "distinct (map fst ((res @ [(k, v)]) @ kvs))" by auto
  then have "foldl (\<lambda>r (k, v). dict_set r k v) (res @ [(k, v)]) kvs = (res @ [(k, v)]) @ kvs"
    by (rule Cons.IH)
  with new show ?case by (simp add: p dict_set_new)
qed

lemma next_page_fst: "fst (next_page p c) = has_more p"
  by (simp add: next_page_def has_more_def handed_cookie_def split: option.splits)

lemma next_page_snd: "has_more p \<Longrightarrow> snd (next_page p c) = handed_cookie p"
  by (auto simp add: next_page_def has_more_def handed_cookie_def split: option.splits)

lemma sim_search_next:
  "sim_search \<lparr>expected_cookie = c, pending = p # ps\<rparr> c =
     (p, \<lparr>expected_cookie = handed_cookie p, pending = ps\<rparr>)"
  by (simp add: sim_search_def)

lemma paged_loop_sim:
  "paged_sequence ps \<Longrightarrow>
   paged_loop sim_search \<lparr>expected_cookie = c, pending = ps\<rparr> c res =
     Some (foldl (\<lambda>r p. collect_entries (response p) r) res ps)"
proof (induction ps arbitrary: c res rule: paged_sequence.induct)
  case 1
  then show ?case by simp
next
  case (2 p)
  then have "\<not> has_more p" by simp
  then show ?case
    by (subst paged_loop.simps) (simp add: sim_search_next next_page_fst)
next
  case (3 p q ps)
  then have more: "has_more p" and rest: "paged_sequence (q # ps)" by simp_all
  have "paged_loop sim_search \<lparr>expected_cookie = c, pending = p # q # ps\<rparr> c res =
        paged_loop sim_search \<lparr>expected_cookie = handed_cookie p, pending = q # ps\<rparr>
          (handed_cookie p) (collect_entries (response p) res)"
    using more by (subst paged_loop.simps) (simp add: sim_search_next next_page_fst next_page_snd)
  also have "\<dots> = Some (foldl (\<lambda>r p. collect_entries (response p) r)
                          (collect_entries (response p) res) (q # ps))"
    using rest by (rule "3.IH")
  finally show ?case by simp
qed

lemma get_domain_computers_sim:
  assumes "paged_sequence pages"
  shows "get_domain_computers sim_search (sim_start pages) =
           Some (foldl (\<lambda>r (k, v). dict_set r k v) [] (computer_entries pages))"
  using paged_loop_sim [OF assms, of None "[]"]
  by (simp add: get_domain_computers_def sim_start_def foldl_pages_eq)

subsection \<open>The command line\<close>

lemma take_action_password: "auth_password ns \<noteq> None \<Longrightarrow> auth_password (take_action ns a) \<noteq> None"
  by (cases a) simp_all

lemma foldl_take_action_password:
  "auth_password ns \<noteq> None \<Longrightarrow> auth_password (foldl take_action ns occ) \<noteq> None"
proof (induction occ arbitrary: ns)
  case Nil
  then show ?case by simp
next
  case (Cons a occ)
  from Cons.prems have "auth_password (take_action ns a) \<noteq> None"
    by (rule take_action_password)
  then have "auth_password (foldl take_action (take_action ns a) occ) \<noteq> None"
    by (rule Cons.IH)
  then show ?case by simp
qed

lemma take_action_keeps_password:
  "(\<forall>v. a \<noteq> ArgPassword v) \<Longrightarrow> auth_password (take_action ns a) = auth_password ns"
  by (cases a) simp_all

lemma foldl_take_action_keeps_password:
  "(\<forall>v. ArgPassword v \<notin> set occ) \<Longrightarrow>
   auth_password (foldl take_action ns occ) = auth_password ns"
proof (induction occ arbitrary: ns)
  case Nil
  show ?case by simp
next
  case (Cons a occ)
  then have "\<forall>v. a \<noteq> ArgPassword v" and "\<forall>v. ArgPassword v \<notin> set occ" by auto
  then show ?case by (simp add: Cons.IH take_action_keeps_password)
qed


subsection \<open>The sample runs\<close>


lemma sample_main_body: "main_body sample_opts sample_env = Some sample_run"
  by code_simp


lemma common_share_prints_nothing:
  "sharename \<in> set COMMON_SHARES \<Longrightarrow> \<not> debug opts \<Longrightarrow>
   discovery_lines opts sharename sharecomment address = []"
  by (simp add: discovery_lines_def)

lemma ignore_hidden_shares_changes_console:
  "discovery_lines (sample_opts\<lparr>ignore_hidden_shares := True\<rparr>) ''Backup$'' [] ''pc1.lab'' = [] \<and>
   discovery_lines sample_opts ''Backup$'' [] ''pc1.lab'' \<noteq> []"
  by (simp add: discovery_lines_def sample_opts_def default_namespace_def COMMON_SHARES_def
      endswith_def)

text \<open>What holds of the exit status whatever the probes do: the usage without argument,
  the status 0 of a run whose pool has a worker, whose lines print and whose files are
  written, and the same pool error with \<^verbatim>\<open>-t 0\<close> as with an empty directory.\<close>

lemma no_argument_prints_usage:
  "length argv = 1 \<Longrightarrow> parse_args cli argv = ([banner, help_text cli], Inl 1)"
  by (simp add: parse_args_def)

lemma pool_of_no_thread_fails:
  "map_option (ending \<circ> snd)
     (script sample_cli sample_env (''FindUncommonShares.py'' # login_words @ [''-t'', ''0''])) =
   Some (Uncaught ''ValueError: max_workers must be greater than 0'')"
  by code_simp

section \<open>The claims\<close>

text \<open>
  Claim C1. For every value of the share type, \<^verbatim>\<open>STYPE_MASK\<close> reports
  \<^verbatim>\<open>STYPE_SPECIAL\<close> exactly when bit 31 of the value is clear, and
  \<^verbatim>\<open>STYPE_TEMPORARY\<close> exactly when bit 30 is clear.
\<close>

theorem stype_special_temporary_polarity:
  "(''STYPE_SPECIAL'' \<in> set (STYPE_MASK v)) = (\<not> bit v 31) \<and>
   (''STYPE_TEMPORARY'' \<in> set (STYPE_MASK v)) = (\<not> bit v 30)"
  by (simp add: STYPE_MASK_def Let_def STYPE_SPECIAL_def STYPE_TEMPORARY_def
      bit_31_test bit_30_test)

text \<open>
  Claim C2. For every value of the share type, exactly one of the four flags of the
  category is in the list returned by \<^verbatim>\<open>STYPE_MASK\<close>: the one selected by the low
  two bits of the value (0 disk, 1 print queue, 2 device, 3 IPC).
\<close>

theorem stype_category_by_low_bits:
  "filter (\<lambda>f. f \<in> set category_flags) (STYPE_MASK v) = [category_flags ! nat (v mod 4)]"
proof -
  have "v mod 4 = 0 \<or> v mod 4 = 1 \<or> v mod 4 = 2 \<or> v mod 4 = 3" by presburger
  then show ?thesis
    by (auto simp add: STYPE_MASK_def Let_def and_3_eq_mod_4 category_flags_def
        STYPE_DISKTREE_def STYPE_PRINTQ_def STYPE_DEVICE_def STYPE_IPC_def)
qed

text \<open>
  Claim C3. For a sequence of pages whose last page, and no earlier one, hands out an
  empty cookie or has no paging control, \<^verbatim>\<open>get_domain_computers\<close> leaves its loop
  and returns a dictionary with one key for each distinguished name among the computer
  entries of all the pages. The value of a name is that of its last entry; when the
  names are distinct the dictionary is the list of all the entries, in order.
\<close>

theorem paged_enumeration_union:
  assumes "paged_sequence pages"
  shows "\<exists>res. get_domain_computers sim_search (sim_start pages) = Some res \<and>
           distinct (map fst res) \<and>
           map_of res = map_of (rev (computer_entries pages)) \<and>
           (distinct (map fst (computer_entries pages)) \<longrightarrow> res = computer_entries pages)"
proof -
  let ?res = "foldl (\<lambda>r (k, v). dict_set r k v) [] (computer_entries pages)"
  have "get_domain_computers sim_search (sim_start pages) = Some ?res"
    using assms by (rule get_domain_computers_sim)
  moreover have "distinct (map fst ?res)"
    by (rule distinct_foldl_dict_set) simp
  moreover have "map_of ?res = map_of (rev (computer_entries pages))"
    by (simp add: map_of_foldl_dict_set)
  moreover have "distinct (map fst (computer_entries pages)) \<longrightarrow> ?res = computer_entries pages"
    using foldl_dict_set_distinct [of "[]" "computer_entries pages"] by simp
  ultimately show ?thesis by blast
qed

theorem paged_enumeration_union_witness:
  "paged_sequence sample_pages \<and>
   (\<exists>res. get_domain_computers sim_search (sim_start sample_pages) = Some res \<and>
      distinct (map fst res) \<and>
      map_of res = map_of (rev (computer_entries sample_pages)) \<and>
      (distinct (map fst (computer_entries sample_pages)) \<longrightarrow>
         res = computer_entries sample_pages))"
proof -
  have h: "paged_sequence sample_pages"
    by (simp add: sample_pages_def has_more_def handed_cookie_def)
  from paged_enumeration_union [OF h] h show ?thesis by simp
qed




text \<open>
  Claim C5. In every entry of the result set of a run, the field \<^verbatim>\<open>hidden\<close> is true
  if and only if the recorded name is not empty and its last character is the dollar
  sign.
\<close>

theorem recorded_hidden_iff_dollar:
  assumes "main_body opts env = Some r"
    and "e \<in> set (all_records (resultset (tasks r)))"
  shows "hidden (share e) = (name (share e) \<noteq> [] \<and> last (name (share e)) = CHR ''$'')"
proof -
  have "\<forall>e\<in>set (all_records (resultset (tasks r))).
          hidden (share e) = (name (share e) \<noteq> [] \<and> last (name (share e)) = CHR ''$'')"
    using share_entry_hidden assms(1)
    by (rule main_body_invariant
        [where Q = "\<lambda>e. hidden (share e) = (name (share e) \<noteq> [] \<and> last (name (share e)) = CHR ''$'')"])
  with assms(2) show ?thesis by blast
qed

theorem recorded_hidden_iff_dollar_witness:
  "main_body sample_opts sample_env = Some sample_run \<and>
   share_entry ''pc1.lab'' ''10.0.0.5'' share_c \<in> set (all_records (resultset (tasks sample_run))) \<and>
   hidden (share (share_entry ''pc1.lab'' ''10.0.0.5'' share_c)) =
     (name (share (share_entry ''pc1.lab'' ''10.0.0.5'' share_c)) \<noteq> [] \<and>
      last (name (share (share_entry ''pc1.lab'' ''10.0.0.5'' share_c))) = CHR ''$'')"
proof -
  have h1: "main_body sample_opts sample_env = Some sample_run" by (rule sample_main_body)
  have h2: "share_entry ''pc1.lab'' ''10.0.0.5'' share_c \<in> set (all_records (resultset (tasks sample_run)))"
    by (simp add: sample_run_def sample_results_def all_records_def)
  from recorded_hidden_iff_dollar [OF h1 h2] h1 h2 show ?thesis by blast
qed

text \<open>
  Claim C6 fails on a directory that holds no computer. The command line names the
  domain controller and the credentials, the bind succeeds and the paged search returns
  no entry; the size of the pool is then the minimum of 20 and 0, the construction of
  the pool raises \<^verbatim>\<open>ValueError\<close>, and the script ends with status 1 where the claim
  has it run to completion with status 0.
\<close>

theorem empty_directory_run_fails:
  "ldap_bind empty_env = Returns () \<and>
   get_domain_computers (ldap_search empty_env) (ldap_session empty_env) = Some [] \<and>
   map_option (ending \<circ> snd)
     (script sample_cli empty_env (''FindUncommonShares.py'' # login_words)) =
     Some (Uncaught ''ValueError: max_workers must be greater than 0'') \<and>
   map_option (exit_status \<circ> ending \<circ> snd)
     (script sample_cli empty_env (''FindUncommonShares.py'' # login_words)) = Some 1"
  by code_simp

text \<open>
  Claim C7 holds for the rows and fails for the autofilter. On the sample result set,
  of two entries, the header is written on row 0 and the entries on rows 1 and 2, and
  the autofilter runs from row 0 to row 3: its last row is the value of
  \<^verbatim>\<open>row_id\<close> after the loop, one more than the last row written.
\<close>

theorem xlsx_autofilter_reaches_past_last_row:
  "written (write_xlsx sample_results) =
     [(0, 0, map Str header_fields),
      (1, 0, xlsx_data (share_entry ''pc1.lab'' ''10.0.0.5'' share_c)),
      (2, 0, xlsx_data (share_entry ''pc1.lab'' ''10.0.0.5'' share_data))] \<and>
   autofilter (write_xlsx sample_results) = Some (0, 0, 3, 4)"
  by (simp add: write_xlsx_eq sample_results_def all_records_def data_rows_def)





text \<open>
  Claim C10. Whenever \<^verbatim>\<open>parse_args\<close> returns options, the prompt for the password
  has not been shown and the password is not \<^verbatim>\<open>None\<close>; when the command line is
  accepted and holds no \<^verbatim>\<open>--password\<close>, the password is the empty string.
\<close>

theorem password_prompt_unreachable:
  "(parse_args cli argv = (out, Inr (opts, prompted)) \<longrightarrow>
      prompted = False \<and> auth_password opts \<noteq> None) \<and>
   (length argv \<noteq> 1 \<and> scan cli (tl argv) = Inr occ \<and> (\<forall>v. ArgPassword v \<notin> set occ) \<longrightarrow>
      parse_args cli argv = ([banner], Inr (foldl take_action default_namespace occ, False)) \<and>
      auth_password (foldl take_action default_namespace occ) = Some [])"
proof -
  have start: "auth_password default_namespace \<noteq> None"
    by (simp add: default_namespace_def)
  have never: "auth_password (foldl take_action default_namespace occ') \<noteq> None" for occ'
    using start by (rule foldl_take_action_password)
  have first: "parse_args cli argv = (out, Inr (opts, prompted)) \<longrightarrow>
      prompted = False \<and> auth_password opts \<noteq> None"
  proof
    assume a: "parse_args cli argv = (out, Inr (opts, prompted))"
    show "prompted = False \<and> auth_password opts \<noteq> None"
    proof (cases "scan cli (tl argv)")
      case (Inl code)
      with a show ?thesis by (simp add: parse_args_def split: if_splits)
    next
      case (Inr occ')
      have "auth_password (foldl take_action default_namespace occ') \<noteq> None"
        by (rule never)
      with a Inr show ?thesis
        by (auto simp add: parse_args_def Let_def split: if_splits)
    qed
  qed
  have second: "length argv \<noteq> 1 \<and> scan cli (tl argv) = Inr occ \<and> (\<forall>v. ArgPassword v \<notin> set occ) \<longrightarrow>
      parse_args cli argv = ([banner], Inr (foldl take_action default_namespace occ, False)) \<and>
      auth_password (foldl take_action default_namespace occ) = Some []"
  proof
    assume h: "length argv \<noteq> 1 \<and> scan cli (tl argv) = Inr occ \<and> (\<forall>v. ArgPassword v \<notin> set occ)"
    then have "auth_password (foldl take_action default_namespace occ) =
               auth_password default_namespace"
      by (simp add: foldl_take_action_keeps_password)
    then have pw: "auth_password (foldl take_action default_namespace occ) = Some []"
      by (simp add: default_namespace_def)
    with h show "parse_args cli argv =
        ([banner], Inr (foldl take_action default_namespace occ, False)) \<and>
      auth_password (foldl take_action default_namespace occ) = Some []"
      by (simp add: parse_args_def Let_def)
  qed
  from first second show ?thesis by (rule conjI)
qed

theorem password_prompt_unreachable_witness:
  "parse_args sample_cli [''FindUncommonShares.py'', ''--dc-ip'', ''10.0.0.1''] =
     ([banner], Inr (sample_opts, False)) \<and>
   auth_password sample_opts \<noteq> None \<and>
   length [''FindUncommonShares.py'', ''--dc-ip'', ''10.0.0.1''] \<noteq> 1 \<and>
   scan sample_cli (tl [''FindUncommonShares.py'', ''--dc-ip'', ''10.0.0.1'']) =
     Inr [ArgDcIp ''10.0.0.1''] \<and>
   (\<forall>v. ArgPassword v \<notin> set [ArgDcIp ''10.0.0.1'']) \<and>
   auth_password (foldl take_action default_namespace [ArgDcIp ''10.0.0.1'']) = Some []"
proof -
  have h1: "parse_args sample_cli [''FindUncommonShares.py'', ''--dc-ip'', ''10.0.0.1''] =
     ([banner], Inr (sample_opts, False))"
    by (simp add: parse_args_def sample_cli_def sample_scan_def sample_opts_def
        default_namespace_def)
  have h2: "length [''FindUncommonShares.py'', ''--dc-ip'', ''10.0.0.1''] \<noteq> 1" by simp
  have h3: "scan sample_cli (tl [''FindUncommonShares.py'', ''--dc-ip'', ''10.0.0.1'']) =
     Inr [ArgDcIp ''10.0.0.1'']"
    by (simp add: sample_cli_def sample_scan_def)
  have h4: "\<forall>v. ArgPassword v \<notin> set [ArgDcIp ''10.0.0.1'']" by simp
  from password_prompt_unreachable [of sample_cli
      "[''FindUncommonShares.py'', ''--dc-ip'', ''10.0.0.1'']" "[banner]" sample_opts False
      "[ArgDcIp ''10.0.0.1'']"]
  show ?thesis using h1 h2 h3 h4 by blast
qed

end
